theory Spec2Isabelle
  imports Main
begin

section \<open>Data model\<close>

text \<open>
  The views of \<^verbatim>\<open>blog/views.py\<close> work on five tables. A row is a record; a
  foreign key is the primary key of the row it points to. Timestamps are points on an
  integer time line.
\<close>

record User =
  user_pk :: nat
  username :: string

record Category =
  category_pk :: nat
  slug :: string
  category_is_published :: bool

record Location =
  location_pk :: nat
  location_is_published :: bool

record Post =
  post_pk :: nat
  author_id :: nat
  category_id :: nat
  location_id :: nat
  is_published :: bool
  pub_date :: int
  title :: string

record Comment =
  comment_pk :: nat
  comment_post_id :: nat
  comment_author_id :: nat
  comment_text :: string

record database =
  User_objects :: "User list"
  Category_objects :: "Category list"
  Location_objects :: "Location list"
  Post_objects :: "Post list"
  Comment_objects :: "Comment list"

text \<open>
  A primary key names at most one row of its table, and \<^verbatim>\<open>username\<close> names at
  most one user.
\<close>

definition unique_keys :: "database \<Rightarrow> bool" where
  "unique_keys db \<longleftrightarrow>
     distinct (map user_pk (User_objects db)) \<and>
     distinct (map username (User_objects db)) \<and>
     distinct (map category_pk (Category_objects db)) \<and>
     distinct (map location_pk (Location_objects db)) \<and>
     distinct (map post_pk (Post_objects db)) \<and>
     distinct (map comment_pk (Comment_objects db))"

section \<open>Object lookup\<close>

datatype error = Http404 | DoesNotExist | MultipleObjectsReturned | ValueError

text \<open>\<^verbatim>\<open>Model.objects.get(**lookup)\<close>: exactly one row must match.\<close>

definition objects_get :: "('a \<Rightarrow> bool) \<Rightarrow> 'a list \<Rightarrow> error + 'a" where
  "objects_get lookup table =
     (case filter lookup table of
        [] \<Rightarrow> Inl DoesNotExist
      | [x] \<Rightarrow> Inr x
      | _ \<Rightarrow> Inl MultipleObjectsReturned)"

text \<open>\<^verbatim>\<open>get_object_or_404\<close> turns the missing row into \<^verbatim>\<open>Http404\<close>.\<close>

definition get_object_or_404 :: "('a \<Rightarrow> bool) \<Rightarrow> 'a list \<Rightarrow> error + 'a" where
  "get_object_or_404 lookup table =
     (case objects_get lookup table of
        Inl DoesNotExist \<Rightarrow> Inl Http404
      | r \<Rightarrow> r)"

text \<open>Running the rest of a handler unless an exception was raised.\<close>

definition and_then :: "error + 'a \<Rightarrow> ('a \<Rightarrow> error + 'b) \<Rightarrow> error + 'b" where
  "and_then r f = (case r of Inl e \<Rightarrow> Inl e | Inr x \<Rightarrow> f x)"

subsection \<open>Following a foreign key (attribute access on an instance)\<close>

definition Post_author :: "database \<Rightarrow> Post \<Rightarrow> error + User" where
  "Post_author db post = objects_get (\<lambda>u. user_pk u = author_id post) (User_objects db)"

definition Post_category :: "database \<Rightarrow> Post \<Rightarrow> error + Category" where
  "Post_category db post =
     objects_get (\<lambda>c. category_pk c = category_id post) (Category_objects db)"

definition Post_location :: "database \<Rightarrow> Post \<Rightarrow> error + Location" where
  "Post_location db post =
     objects_get (\<lambda>l. location_pk l = location_id post) (Location_objects db)"

definition Comment_author :: "database \<Rightarrow> Comment \<Rightarrow> error + User" where
  "Comment_author db comment =
     objects_get (\<lambda>u. user_pk u = comment_author_id comment) (User_objects db)"

definition Comment_post :: "database \<Rightarrow> Comment \<Rightarrow> error + Post" where
  "Comment_post db comment =
     objects_get (\<lambda>p. post_pk p = comment_post_id comment) (Post_objects db)"

subsection \<open>Reverse relations\<close>

definition Post_comments :: "database \<Rightarrow> Post \<Rightarrow> Comment list" where
  "Post_comments db post =
     filter (\<lambda>c. comment_post_id c = post_pk post) (Comment_objects db)"

definition Category_posts :: "database \<Rightarrow> Category \<Rightarrow> Post list" where
  "Category_posts db category =
     filter (\<lambda>p. category_id p = category_pk category) (Post_objects db)"

definition User_posts :: "database \<Rightarrow> User \<Rightarrow> Post list" where
  "User_posts db author =
     filter (\<lambda>p. author_id p = user_pk author) (Post_objects db)"

section \<open>Querysets\<close>

text \<open>
  The lookups \<^verbatim>\<open>category__is_published=True\<close> and
  \<^verbatim>\<open>location__is_published=True\<close> join the related table: a post passes when
  a related row with the flag set exists.
\<close>

definition category__is_published :: "database \<Rightarrow> Post \<Rightarrow> bool" where
  "category__is_published db post =
     list_ex (\<lambda>c. category_pk c = category_id post \<and> category_is_published c)
       (Category_objects db)"

definition location__is_published :: "database \<Rightarrow> Post \<Rightarrow> bool" where
  "location__is_published db post =
     list_ex (\<lambda>l. location_pk l = location_id post \<and> location_is_published l)
       (Location_objects db)"

text \<open>\<^verbatim>\<open>order_by('-pub_date')\<close>: a stable sort, latest first.\<close>

definition order_by_desc :: "('a \<Rightarrow> int) \<Rightarrow> 'a list \<Rightarrow> 'a list" where
  "order_by_desc field qs = sort_key (\<lambda>x. - field x) qs"

text \<open>\<^verbatim>\<open>annotate(comment_count=Count('comments'))\<close>.\<close>

definition annotate_comment_count :: "database \<Rightarrow> Post list \<Rightarrow> (Post \<times> nat) list" where
  "annotate_comment_count db qs = map (\<lambda>p. (p, length (Post_comments db p))) qs"

section \<open>PostListView\<close>

definition PostListView_get_queryset :: "database \<Rightarrow> int \<Rightarrow> (Post \<times> nat) list" where
  "PostListView_get_queryset db now =
     annotate_comment_count db
       (order_by_desc pub_date
          (filter (\<lambda>p. is_published p \<and> category__is_published db p \<and>
                        location__is_published db p \<and> pub_date p \<le> now)
             (Post_objects db)))"

section \<open>PostDetailView\<close>

text \<open>
  \<^verbatim>\<open>request.user\<close> is \<open>None\<close> for the anonymous user. Model instances are equal
  when their primary keys are; the anonymous user equals no row.
\<close>

definition same_user :: "User option \<Rightarrow> User \<Rightarrow> bool" where
  "same_user user author =
     (case user of None \<Rightarrow> False | Some u \<Rightarrow> user_pk u = user_pk author)"

text \<open>
  \<^verbatim>\<open>or\<close> and \<^verbatim>\<open>and\<close> evaluate left to right and stop early, so a related row
  is only fetched when the test reaches it.
\<close>

definition PostDetailView_get_object :: "database \<Rightarrow> User option \<Rightarrow> nat \<Rightarrow> error + Post" where
  "PostDetailView_get_object db user post_id =
     and_then (get_object_or_404 (\<lambda>p. post_pk p = post_id) (Post_objects db)) (\<lambda>post.
     and_then (Post_author db post) (\<lambda>author.
       if same_user user author then Inr post
       else if \<not> is_published post then Inl Http404
       else and_then (Post_category db post) (\<lambda>category.
         if \<not> category_is_published category then Inl Http404
         else and_then (Post_location db post) (\<lambda>location.
           if location_is_published location then Inr post else Inl Http404))))"

section \<open>Requests, responses and forms\<close>

datatype http_method = GET | POST

type_synonym querydict = "(string \<times> string) list"

record request =
  request_user :: "User option"
  request_method :: http_method
  request_POST :: querydict

datatype url = post_detail nat | profile string | login

datatype response = redirect url | render string

text \<open>A view returns its response, or the exception it raised, and the database it leaves.\<close>

type_synonym outcome = "(error + response) \<times> database"

text \<open>
  The form classes of \<^verbatim>\<open>blog/forms.py\<close> are parameters of the views: which bodies a
  form accepts, and how it writes the accepted body into the instance. Nothing is
  assumed about either; a form may write any field it likes.
\<close>

record 'a ModelForm =
  is_valid :: "querydict \<Rightarrow> bool"
  construct_instance :: "querydict \<Rightarrow> 'a \<Rightarrow> 'a"

definition LoginRequiredMixin_dispatch :: "database \<Rightarrow> request \<Rightarrow> outcome \<Rightarrow> outcome" where
  "LoginRequiredMixin_dispatch db r super_dispatch =
     (if request_user r = None then (Inr (redirect login), db) else super_dispatch)"

section \<open>Writing to the database\<close>

text \<open>Saving an instance that has a primary key replaces the row with that key.\<close>

definition Post_save :: "database \<Rightarrow> Post \<Rightarrow> database" where
  "Post_save db post =
     db\<lparr>Post_objects := map (\<lambda>p. if post_pk p = post_pk post then post else p) (Post_objects db)\<rparr>"

definition Comment_save :: "database \<Rightarrow> Comment \<Rightarrow> database" where
  "Comment_save db comment =
     db\<lparr>Comment_objects :=
          map (\<lambda>c. if comment_pk c = comment_pk comment then comment else c) (Comment_objects db)\<rparr>"

text \<open>Saving a new instance appends a row under the next free primary key.\<close>

definition next_pk :: "nat list \<Rightarrow> nat" where
  "next_pk pks = Suc (fold max pks 0)"

definition Comment_create :: "database \<Rightarrow> Comment \<Rightarrow> database" where
  "Comment_create db comment =
     db\<lparr>Comment_objects := Comment_objects db @
          [comment\<lparr>comment_pk := next_pk (map comment_pk (Comment_objects db))\<rparr>]\<rparr>"

text \<open>
  Deleting a post removes its row; what happens to the comments that point to it is the
  \<^verbatim>\<open>on_delete\<close> rule of the comment model, a parameter here.
\<close>

definition Post_delete ::
  "(Post \<Rightarrow> Comment list \<Rightarrow> Comment list) \<Rightarrow> database \<Rightarrow> Post \<Rightarrow> database" where
  "Post_delete on_delete db post =
     db\<lparr>Post_objects := filter (\<lambda>p. post_pk p \<noteq> post_pk post) (Post_objects db),
        Comment_objects := on_delete post (Comment_objects db)\<rparr>"

definition Comment_delete :: "database \<Rightarrow> Comment \<Rightarrow> database" where
  "Comment_delete db comment =
     db\<lparr>Comment_objects :=
          filter (\<lambda>c. comment_pk c \<noteq> comment_pk comment) (Comment_objects db)\<rparr>"

section \<open>AuthorPostMixin, PostEditView, PostDeleteView\<close>

text \<open>
  The mixin's \<^verbatim>\<open>dispatch\<close> runs first: it fetches the object, compares the author
  and only then hands over to \<^verbatim>\<open>super().dispatch\<close>, which starts with
  \<^verbatim>\<open>LoginRequiredMixin\<close>.
\<close>

definition AuthorPostMixin_dispatch ::
  "database \<Rightarrow> request \<Rightarrow> error + Post \<Rightarrow> outcome \<Rightarrow> outcome" where
  "AuthorPostMixin_dispatch db r get_object super_dispatch =
     (case get_object of
        Inl e \<Rightarrow> (Inl e, db)
      | Inr post \<Rightarrow>
          (case Post_author db post of
             Inl e \<Rightarrow> (Inl e, db)
           | Inr author \<Rightarrow>
               if \<not> same_user (request_user r) author
               then (Inr (redirect (post_detail (post_pk post))), db)
               else super_dispatch))"

definition PostEditView_get_object :: "database \<Rightarrow> nat \<Rightarrow> error + Post" where
  "PostEditView_get_object db post_id =
     get_object_or_404 (\<lambda>p. post_pk p = post_id) (Post_objects db)"

text \<open>
  \<^verbatim>\<open>UpdateView\<close>: GET shows the form, POST saves a valid form and redirects to
  \<^verbatim>\<open>get_success_url()\<close>. A form does not write the primary key.
\<close>

definition PostEditView_handler :: "Post ModelForm \<Rightarrow> database \<Rightarrow> request \<Rightarrow> nat \<Rightarrow> outcome" where
  "PostEditView_handler form db r post_id =
     (case PostEditView_get_object db post_id of
        Inl e \<Rightarrow> (Inl e, db)
      | Inr post \<Rightarrow>
          (case request_method r of
             GET \<Rightarrow> (Inr (render ''blog/create.html''), db)
           | POST \<Rightarrow>
               if is_valid form (request_POST r)
               then let object = (construct_instance form (request_POST r) post)
                                   \<lparr>post_pk := post_pk post\<rparr>
                    in (Inr (redirect (post_detail (post_pk object))), Post_save db object)
               else (Inr (render ''blog/create.html''), db)))"

definition PostEditView_dispatch :: "Post ModelForm \<Rightarrow> database \<Rightarrow> request \<Rightarrow> nat \<Rightarrow> outcome" where
  "PostEditView_dispatch form db r post_id =
     AuthorPostMixin_dispatch db r (PostEditView_get_object db post_id)
       (LoginRequiredMixin_dispatch db r (PostEditView_handler form db r post_id))"

definition PostDeleteView_get_object :: "database \<Rightarrow> nat \<Rightarrow> error + Post" where
  "PostDeleteView_get_object db post_id =
     get_object_or_404 (\<lambda>p. post_pk p = post_id) (Post_objects db)"

text \<open>
  \<^verbatim>\<open>DeleteView\<close>: GET shows the confirmation page, POST computes the success URL,
  deletes the object and redirects.
\<close>

definition PostDeleteView_handler ::
  "(Post \<Rightarrow> Comment list \<Rightarrow> Comment list) \<Rightarrow> database \<Rightarrow> request \<Rightarrow> nat \<Rightarrow> outcome" where
  "PostDeleteView_handler on_delete db r post_id =
     (case PostDeleteView_get_object db post_id of
        Inl e \<Rightarrow> (Inl e, db)
      | Inr post \<Rightarrow>
          (case request_method r of
             GET \<Rightarrow> (Inr (render ''blog/create.html''), db)
           | POST \<Rightarrow>
               (case Post_author db post of
                  Inl e \<Rightarrow> (Inl e, db)
                | Inr author \<Rightarrow>
                    (Inr (redirect (profile (username author))),
                     Post_delete on_delete db post))))"

definition PostDeleteView_dispatch ::
  "(Post \<Rightarrow> Comment list \<Rightarrow> Comment list) \<Rightarrow> database \<Rightarrow> request \<Rightarrow> nat \<Rightarrow> outcome" where
  "PostDeleteView_dispatch on_delete db r post_id =
     AuthorPostMixin_dispatch db r (PostDeleteView_get_object db post_id)
       (LoginRequiredMixin_dispatch db r (PostDeleteView_handler on_delete db r post_id))"

section \<open>CategoryPostsListView\<close>

definition get_category :: "database \<Rightarrow> string \<Rightarrow> error + Category" where
  "get_category db category_slug =
     get_object_or_404 (\<lambda>c. slug c = category_slug \<and> category_is_published c)
       (Category_objects db)"

definition CategoryPostsListView_get_queryset ::
  "database \<Rightarrow> int \<Rightarrow> string \<Rightarrow> error + (Post \<times> nat) list" where
  "CategoryPostsListView_get_queryset db now category_slug =
     and_then (get_category db category_slug) (\<lambda>category.
       Inr (annotate_comment_count db
              (order_by_desc pub_date
                 (filter (\<lambda>p. is_published p \<and> pub_date p \<le> now \<and>
                               category__is_published db p)
                    (Category_posts db category)))))"

section \<open>CommentCreateView\<close>

text \<open>
  The instance of an unbound create form is a fresh \<^verbatim>\<open>Comment()\<close>; its key and
  relations hold nothing until they are set, written here as zeros.
\<close>

definition Comment_blank :: Comment where
  "Comment_blank =
     \<lparr>comment_pk = 0, comment_post_id = 0, comment_author_id = 0, comment_text = []\<rparr>"

text \<open>
  Assigning the anonymous user to \<^verbatim>\<open>instance.author\<close> raises; the login mixin keeps
  that request from getting here.
\<close>

definition CommentCreateView_form_valid ::
  "database \<Rightarrow> request \<Rightarrow> nat \<Rightarrow> Comment \<Rightarrow> outcome" where
  "CommentCreateView_form_valid db r post_id instance =
     (case get_object_or_404 (\<lambda>p. post_pk p = post_id) (Post_objects db) of
        Inl e \<Rightarrow> (Inl e, db)
      | Inr post \<Rightarrow>
          (case request_user r of
             None \<Rightarrow> (Inl ValueError, db)
           | Some user \<Rightarrow>
               (Inr (redirect (post_detail post_id)),
                Comment_create db
                  (instance\<lparr>comment_post_id := post_pk post,
                            comment_author_id := user_pk user\<rparr>))))"

text \<open>\<^verbatim>\<open>CreateView\<close> behind \<^verbatim>\<open>LoginRequiredMixin\<close>.\<close>

definition CommentCreateView_dispatch ::
  "Comment ModelForm \<Rightarrow> database \<Rightarrow> request \<Rightarrow> nat \<Rightarrow> outcome" where
  "CommentCreateView_dispatch form db r post_id =
     LoginRequiredMixin_dispatch db r
       (case request_method r of
          GET \<Rightarrow> (Inr (render ''blog/comment.html''), db)
        | POST \<Rightarrow>
            if is_valid form (request_POST r)
            then CommentCreateView_form_valid db r post_id
                   (construct_instance form (request_POST r) Comment_blank)
            else (Inr (render ''blog/comment.html''), db))"

section \<open>AuthorCommentMixin, CommentEditView, CommentDeleteView\<close>

definition AuthorCommentMixin_dispatch ::
  "database \<Rightarrow> request \<Rightarrow> error + Comment \<Rightarrow> outcome \<Rightarrow> outcome" where
  "AuthorCommentMixin_dispatch db r get_object super_dispatch =
     (case get_object of
        Inl e \<Rightarrow> (Inl e, db)
      | Inr comment \<Rightarrow>
          (case Comment_author db comment of
             Inl e \<Rightarrow> (Inl e, db)
           | Inr author \<Rightarrow>
               if \<not> same_user (request_user r) author
               then (case Comment_post db comment of
                       Inl e \<Rightarrow> (Inl e, db)
                     | Inr post \<Rightarrow> (Inr (redirect (post_detail (post_pk post))), db))
               else super_dispatch))"

text \<open>The route's \<^verbatim>\<open>post_id\<close> takes no part in the lookup of the comment to edit.\<close>

definition CommentEditView_get_object :: "database \<Rightarrow> nat \<Rightarrow> nat \<Rightarrow> error + Comment" where
  "CommentEditView_get_object db post_id comment_id =
     get_object_or_404 (\<lambda>c. comment_pk c = comment_id) (Comment_objects db)"

definition CommentEditView_handler ::
  "Comment ModelForm \<Rightarrow> database \<Rightarrow> request \<Rightarrow> nat \<Rightarrow> nat \<Rightarrow> outcome" where
  "CommentEditView_handler form db r post_id comment_id =
     (case CommentEditView_get_object db post_id comment_id of
        Inl e \<Rightarrow> (Inl e, db)
      | Inr comment \<Rightarrow>
          (case request_method r of
             GET \<Rightarrow> (Inr (render ''blog/comment.html''), db)
           | POST \<Rightarrow>
               if is_valid form (request_POST r)
               then let object = (construct_instance form (request_POST r) comment)
                                   \<lparr>comment_pk := comment_pk comment\<rparr>
                    in (Inr (redirect (post_detail post_id)), Comment_save db object)
               else (Inr (render ''blog/comment.html''), db)))"

definition CommentEditView_dispatch ::
  "Comment ModelForm \<Rightarrow> database \<Rightarrow> request \<Rightarrow> nat \<Rightarrow> nat \<Rightarrow> outcome" where
  "CommentEditView_dispatch form db r post_id comment_id =
     AuthorCommentMixin_dispatch db r (CommentEditView_get_object db post_id comment_id)
       (LoginRequiredMixin_dispatch db r (CommentEditView_handler form db r post_id comment_id))"

definition CommentDeleteView_get_object :: "database \<Rightarrow> nat \<Rightarrow> nat \<Rightarrow> error + Comment" where
  "CommentDeleteView_get_object db post_id comment_id =
     get_object_or_404 (\<lambda>c. comment_pk c = comment_id \<and> comment_post_id c = post_id)
       (Comment_objects db)"

definition CommentDeleteView_handler :: "database \<Rightarrow> request \<Rightarrow> nat \<Rightarrow> nat \<Rightarrow> outcome" where
  "CommentDeleteView_handler db r post_id comment_id =
     (case CommentDeleteView_get_object db post_id comment_id of
        Inl e \<Rightarrow> (Inl e, db)
      | Inr comment \<Rightarrow>
          (case request_method r of
             GET \<Rightarrow> (Inr (render ''blog/comment.html''), db)
           | POST \<Rightarrow> (Inr (redirect (post_detail post_id)), Comment_delete db comment)))"

definition CommentDeleteView_dispatch :: "database \<Rightarrow> request \<Rightarrow> nat \<Rightarrow> nat \<Rightarrow> outcome" where
  "CommentDeleteView_dispatch db r post_id comment_id =
     AuthorCommentMixin_dispatch db r (CommentDeleteView_get_object db post_id comment_id)
       (LoginRequiredMixin_dispatch db r (CommentDeleteView_handler db r post_id comment_id))"

section \<open>UserDetailView\<close>

definition UserDetailView_get_queryset ::
  "database \<Rightarrow> User option \<Rightarrow> int \<Rightarrow> string \<Rightarrow> error + (Post \<times> nat) list" where
  "UserDetailView_get_queryset db user now name =
     and_then (get_object_or_404 (\<lambda>u. username u = name) (User_objects db)) (\<lambda>author.
       let queryset = order_by_desc (\<lambda>row. pub_date (fst row))
                        (annotate_comment_count db (User_posts db author))
       in Inr (if \<not> same_user user author
               then filter (\<lambda>row. pub_date (fst row) \<le> now) queryset
               else queryset))"

section \<open>The visibility predicate\<close>

text \<open>
  A post is publicly visible when its own flag, its category's flag and its location's
  flag are set and its publish time is not in the future. The category and the location
  are the rows the post's foreign keys lead to.
\<close>

definition publicly_visible :: "database \<Rightarrow> int \<Rightarrow> Post \<Rightarrow> bool" where
  "publicly_visible db now post \<longleftrightarrow>
     is_published post \<and>
     (case Post_category db post of Inr c \<Rightarrow> category_is_published c | Inl e \<Rightarrow> False) \<and>
     (case Post_location db post of Inr l \<Rightarrow> location_is_published l | Inl e \<Rightarrow> False) \<and>
     pub_date post \<le> now"

section \<open>A small blog\<close>

text \<open>
  Two users, a published and an unpublished category and location, and five posts: a
  visible one, a future-dated one, one at an unpublished location, a draft and a second
  visible one. The time of the requests below is 50.
\<close>

definition alice :: User where
  "alice = \<lparr>user_pk = 1, username = ''alice''\<rparr>"

definition bob :: User where
  "bob = \<lparr>user_pk = 2, username = ''bob''\<rparr>"

definition travel :: Category where
  "travel = \<lparr>category_pk = 1, slug = ''travel'', category_is_published = True\<rparr>"

definition secret :: Category where
  "secret = \<lparr>category_pk = 2, slug = ''secret'', category_is_published = False\<rparr>"

definition paris :: Location where
  "paris = \<lparr>location_pk = 1, location_is_published = True\<rparr>"

definition atlantis :: Location where
  "atlantis = \<lparr>location_pk = 2, location_is_published = False\<rparr>"

definition post1 :: Post where
  "post1 = \<lparr>post_pk = 1, author_id = 1, category_id = 1, location_id = 1,
            is_published = True, pub_date = 10, title = ''first''\<rparr>"

definition post2 :: Post where
  "post2 = \<lparr>post_pk = 2, author_id = 1, category_id = 1, location_id = 1,
            is_published = True, pub_date = 100, title = ''scheduled''\<rparr>"

definition post3 :: Post where
  "post3 = \<lparr>post_pk = 3, author_id = 1, category_id = 1, location_id = 2,
            is_published = True, pub_date = 20, title = ''sunken''\<rparr>"

definition post4 :: Post where
  "post4 = \<lparr>post_pk = 4, author_id = 2, category_id = 1, location_id = 1,
            is_published = False, pub_date = 30, title = ''draft''\<rparr>"

definition post5 :: Post where
  "post5 = \<lparr>post_pk = 5, author_id = 2, category_id = 1, location_id = 1,
            is_published = True, pub_date = 40, title = ''second''\<rparr>"

definition comment1 :: Comment where
  "comment1 = \<lparr>comment_pk = 1, comment_post_id = 1, comment_author_id = 1,
               comment_text = ''hello''\<rparr>"

definition comment2 :: Comment where
  "comment2 = \<lparr>comment_pk = 2, comment_post_id = 1, comment_author_id = 2,
               comment_text = ''nice''\<rparr>"

definition comment3 :: Comment where
  "comment3 = \<lparr>comment_pk = 3, comment_post_id = 5, comment_author_id = 1,
               comment_text = ''thanks''\<rparr>"

definition blog :: database where
  "blog = \<lparr>User_objects = [alice, bob],
            Category_objects = [travel, secret],
            Location_objects = [paris, atlantis],
            Post_objects = [post1, post2, post3, post4, post5],
            Comment_objects = [comment1, comment2, comment3]\<rparr>"

text \<open>A comment form with the one field \<^verbatim>\<open>text\<close>, which it requires.\<close>

definition text_form :: "Comment ModelForm" where
  "text_form =
     \<lparr>is_valid = (\<lambda>body. map_of body ''text'' \<noteq> None),
      construct_instance = (\<lambda>body c.
        case map_of body ''text'' of None \<Rightarrow> c | Some t \<Rightarrow> c\<lparr>comment_text := t\<rparr>)\<rparr>"

text \<open>
  A careless comment form that accepts everything and also writes the author and the post
  from the body (to user 2 and post 5 here).
\<close>

definition careless_form :: "Comment ModelForm" where
  "careless_form =
     \<lparr>is_valid = (\<lambda>body. True),
      construct_instance = (\<lambda>body c.
        c\<lparr>comment_post_id := 5, comment_author_id := 2, comment_text := ''spoofed''\<rparr>)\<rparr>"

definition post_form :: "Post ModelForm" where
  "post_form =
     \<lparr>is_valid = (\<lambda>body. map_of body ''title'' \<noteq> None),
      construct_instance = (\<lambda>body p.
        case map_of body ''title'' of None \<Rightarrow> p | Some t \<Rightarrow> p\<lparr>title := t\<rparr>)\<rparr>"

text \<open>Deleting a post takes its comments with it.\<close>

definition cascade :: "Post \<Rightarrow> Comment list \<Rightarrow> Comment list" where
  "cascade post cs = filter (\<lambda>c. comment_post_id c \<noteq> post_pk post) cs"

section \<open>Unfolding the example and the lookups\<close>

lemmas blog_defs = blog_def alice_def bob_def travel_def secret_def paris_def
  atlantis_def post1_def post2_def post3_def post4_def post5_def comment1_def
  comment2_def comment3_def

lemmas lookup_defs = get_object_or_404_def objects_get_def and_then_def Post_author_def
  Post_category_def Post_location_def Comment_author_def Comment_post_def same_user_def

section \<open>Lookups by a unique key\<close>

lemma filter_key_absent:
  assumes "k \<notin> f ` set xs"
  shows "filter (\<lambda>y. f y = k) xs = []"
proof -
  from assms have "\<forall>y\<in>set xs. f y \<noteq> k" by (metis imageI)
  then show ?thesis by (simp add: filter_empty_conv)
qed

lemma filter_key_present:
  "distinct (map f xs) \<Longrightarrow> x \<in> set xs \<Longrightarrow> f x = k \<Longrightarrow> filter (\<lambda>y. f y = k) xs = [x]"
proof (induction xs)
  case Nil
  then show ?case by simp
next
  case (Cons a xs)
  show ?case
  proof (cases "a = x")
    case True
    with Cons.prems have "k \<notin> f ` set xs" by simp
    then have "filter (\<lambda>y. f y = k) xs = []" by (rule filter_key_absent)
    with True Cons.prems(3) show ?thesis by simp
  next
    case False
    with Cons.prems have x: "x \<in> set xs" by simp
    from Cons.prems have "f a \<notin> f ` set xs" by simp
    with x have "f a \<noteq> f x" by (metis imageI)
    with Cons.prems(3) have ne: "f a \<noteq> k" by simp
    from Cons.prems have "distinct (map f xs)" by simp
    from Cons.IH [OF this x Cons.prems(3)] ne show ?thesis by simp
  qed
qed

lemma objects_get_key:
  assumes "distinct (map f xs)" and "x \<in> set xs" and "f x = k"
  shows "objects_get (\<lambda>y. f y = k) xs = Inr x"
proof -
  have "filter (\<lambda>y. f y = k) xs = [x]" by (rule filter_key_present [OF assms])
  then show ?thesis unfolding objects_get_def by simp
qed

lemma objects_get_absent:
  assumes "k \<notin> f ` set xs"
  shows "objects_get (\<lambda>y. f y = k) xs = Inl DoesNotExist"
  unfolding objects_get_def using filter_key_absent [OF assms] by simp

lemma objects_get_filter:
  assumes "objects_get P xs = Inr x"
  shows "filter P xs = [x]"
proof (cases "filter P xs")
  case Nil
  with assms show ?thesis by (simp add: objects_get_def)
next
  case (Cons a as)
  with assms show ?thesis by (cases as) (simp_all add: objects_get_def)
qed

lemma objects_get_Inr:
  assumes "objects_get P xs = Inr x"
  shows "x \<in> set xs \<and> P x"
proof -
  have "x \<in> set (filter P xs)" using objects_get_filter [OF assms] by simp
  then show ?thesis by simp
qed

lemma get_object_or_404_Inr:
  "get_object_or_404 P xs = Inr x \<longleftrightarrow> objects_get P xs = Inr x"
proof (cases "objects_get P xs")
  case (Inl e)
  then show ?thesis by (cases e) (simp_all add: get_object_or_404_def)
next
  case (Inr y)
  then show ?thesis by (simp add: get_object_or_404_def)
qed

lemma get_object_or_404_none:
  assumes "\<forall>x\<in>set xs. \<not> P x"
  shows "get_object_or_404 P xs = Inl Http404"
proof -
  from assms have "filter P xs = []" by (simp add: filter_empty_conv)
  then show ?thesis by (simp add: get_object_or_404_def objects_get_def)
qed

lemma join_flag_eq:
  assumes "distinct (map f xs)"
  shows "list_ex (\<lambda>c. f c = k \<and> flag c) xs =
         (case objects_get (\<lambda>c. f c = k) xs of Inr c \<Rightarrow> flag c | Inl e \<Rightarrow> False)"
proof (cases "k \<in> f ` set xs")
  case False
  then have "\<forall>c\<in>set xs. f c \<noteq> k" by (metis imageI)
  then have "\<not> list_ex (\<lambda>c. f c = k \<and> flag c) xs" by (simp add: list_ex_iff)
  with objects_get_absent [OF False] show ?thesis by simp
next
  case True
  then obtain x where x: "x \<in> set xs" "k = f x" by (rule imageE)
  have fx: "f x = k" using x(2) by simp
  have flt: "filter (\<lambda>c. f c = k) xs = [x]" by (rule filter_key_present [OF assms x(1) fx])
  have only: "c = x" if "c \<in> set xs" "f c = k" for c
  proof -
    from that have "c \<in> set (filter (\<lambda>c. f c = k) xs)" by simp
    then show ?thesis unfolding flt by simp
  qed
  have "list_ex (\<lambda>c. f c = k \<and> flag c) xs = flag x"
  proof
    assume "list_ex (\<lambda>c. f c = k \<and> flag c) xs"
    then obtain c where c: "c \<in> set xs" "f c = k" "flag c" unfolding list_ex_iff by blast
    from only [OF c(1) c(2)] c(3) show "flag x" by simp
  next
    assume "flag x"
    with x(1) fx show "list_ex (\<lambda>c. f c = k \<and> flag c) xs" unfolding list_ex_iff by blast
  qed
  with objects_get_key [OF assms x(1) fx] show ?thesis by simp
qed

section \<open>Joins, ordering and annotation\<close>

lemma category_join_eq:
  assumes "unique_keys db"
  shows "category__is_published db post =
         (case Post_category db post of Inr c \<Rightarrow> category_is_published c | Inl e \<Rightarrow> False)"
proof -
  from assms have "distinct (map category_pk (Category_objects db))"
    by (simp add: unique_keys_def)
  from join_flag_eq [OF this, of "category_id post" category_is_published]
  show ?thesis by (simp add: category__is_published_def Post_category_def)
qed

lemma location_join_eq:
  assumes "unique_keys db"
  shows "location__is_published db post =
         (case Post_location db post of Inr l \<Rightarrow> location_is_published l | Inl e \<Rightarrow> False)"
proof -
  from assms have "distinct (map location_pk (Location_objects db))"
    by (simp add: unique_keys_def)
  from join_flag_eq [OF this, of "location_id post" location_is_published]
  show ?thesis by (simp add: location__is_published_def Post_location_def)
qed

lemma list_filter_visible:
  assumes "unique_keys db"
  shows "(is_published p \<and> category__is_published db p \<and> location__is_published db p \<and>
          pub_date p \<le> now) = publicly_visible db now p"
  by (simp add: publicly_visible_def category_join_eq [OF assms] location_join_eq [OF assms])

lemma set_order_by_desc: "set (order_by_desc field qs) = set qs"
  by (simp add: order_by_desc_def)

lemma sorted_order_by_desc:
  "sorted_wrt (\<lambda>a b. field b \<le> field a) (order_by_desc field qs)"
proof -
  have "sorted (map (\<lambda>x. - field x) (sort_key (\<lambda>x. - field x) qs))"
    by (rule sorted_sort_key)
  then show ?thesis by (simp add: order_by_desc_def sorted_map)
qed

lemma filter_order_by_desc:
  "filter P (order_by_desc field qs) = order_by_desc field (filter P qs)"
  by (simp add: order_by_desc_def filter_sort)

lemma sorted_annotate:
  assumes "sorted_wrt (\<lambda>a b. pub_date b \<le> pub_date a) qs"
  shows "sorted_wrt (\<lambda>a b. pub_date (fst b) \<le> pub_date (fst a)) (annotate_comment_count db qs)"
  using assms by (simp add: annotate_comment_count_def sorted_wrt_map)

lemma fst_annotate: "map fst (annotate_comment_count db qs) = qs"
  by (simp add: annotate_comment_count_def comp_def)

lemma Comment_post_iff:
  assumes "unique_keys db" and "p \<in> set (Post_objects db)"
  shows "Comment_post db c = Inr p \<longleftrightarrow> comment_post_id c = post_pk p"
proof
  assume "Comment_post db c = Inr p"
  then have "post_pk p = comment_post_id c"
    unfolding Comment_post_def by (rule objects_get_Inr [THEN conjunct2])
  then show "comment_post_id c = post_pk p" by simp
next
  assume eq: "comment_post_id c = post_pk p"
  from assms(1) have d: "distinct (map post_pk (Post_objects db))"
    by (simp add: unique_keys_def)
  from objects_get_key [OF d assms(2), of "comment_post_id c"] eq
  show "Comment_post db c = Inr p" by (simp add: Comment_post_def)
qed

lemma Post_comments_count:
  assumes "unique_keys db" and "p \<in> set (Post_objects db)"
  shows "length (Post_comments db p) =
         card {c \<in> set (Comment_objects db). Comment_post db c = Inr p}"
proof -
  from assms(1) have "distinct (map comment_pk (Comment_objects db))"
    by (simp add: unique_keys_def)
  then have d: "distinct (Comment_objects db)" by (simp add: distinct_map)
  have "{c \<in> set (Comment_objects db). Comment_post db c = Inr p} =
        {c. comment_post_id c = post_pk p} \<inter> set (Comment_objects db)"
    using Comment_post_iff [OF assms] by blast
  with distinct_length_filter [OF d, of "\<lambda>c. comment_post_id c = post_pk p"]
  show ?thesis by (simp add: Post_comments_def)
qed

lemma annotate_row:
  assumes "row \<in> set (annotate_comment_count db qs)"
  shows "fst row \<in> set qs \<and> snd row = length (Post_comments db (fst row))"
  using assms by (auto simp: annotate_comment_count_def)

section \<open>The public listing\<close>

lemma unique_keys_blog: "unique_keys blog"
  by (simp add: unique_keys_def blog_defs)

text \<open>
  C1. In a database with unique keys, a post appears in the listing of
  \<^verbatim>\<open>PostListView\<close> exactly when it is publicly visible (its own, its category's and
  its location's flag are set and its publish time is not after now); the listing is in
  descending order of publish time, and every row carries the number of comments whose
  post it is.
\<close>

theorem PostListView_public_listing:
  assumes "unique_keys db"
  shows "fst ` set (PostListView_get_queryset db now) =
           {p \<in> set (Post_objects db). publicly_visible db now p} \<and>
         sorted_wrt (\<lambda>a b. pub_date (fst b) \<le> pub_date (fst a))
           (PostListView_get_queryset db now) \<and>
         (\<forall>row \<in> set (PostListView_get_queryset db now).
            snd row = card {c \<in> set (Comment_objects db). Comment_post db c = Inr (fst row)})"
proof (intro conjI ballI)
  let ?visible = "filter (publicly_visible db now) (Post_objects db)"
  have qs: "PostListView_get_queryset db now =
            annotate_comment_count db (order_by_desc pub_date ?visible)"
    by (simp add: PostListView_get_queryset_def list_filter_visible [OF assms])
  have "fst ` set (PostListView_get_queryset db now) =
        set (map fst (PostListView_get_queryset db now))" by simp
  also have "\<dots> = set ?visible"
    unfolding qs fst_annotate by (rule set_order_by_desc)
  finally show "fst ` set (PostListView_get_queryset db now) =
                {p \<in> set (Post_objects db). publicly_visible db now p}" by simp
  show "sorted_wrt (\<lambda>a b. pub_date (fst b) \<le> pub_date (fst a))
          (PostListView_get_queryset db now)"
    unfolding qs by (rule sorted_annotate [OF sorted_order_by_desc])
  fix row assume "row \<in> set (PostListView_get_queryset db now)"
  then have row: "fst row \<in> set (order_by_desc pub_date ?visible)"
    "snd row = length (Post_comments db (fst row))"
    unfolding qs by (simp_all add: annotate_row)
  from row(1) have "fst row \<in> set (Post_objects db)"
    by (simp add: set_order_by_desc)
  from Post_comments_count [OF assms this] row(2)
  show "snd row = card {c \<in> set (Comment_objects db). Comment_post db c = Inr (fst row)}"
    by simp
qed

lemma PostListView_blog:
  "PostListView_get_queryset blog 50 = [(post5, 1), (post1, 2)]"
  by (simp add: PostListView_get_queryset_def annotate_comment_count_def order_by_desc_def
      Post_comments_def category__is_published_def location__is_published_def blog_defs)

theorem PostListView_public_listing_witness:
  "unique_keys blog \<and>
   fst ` set (PostListView_get_queryset blog 50) =
     {p \<in> set (Post_objects blog). publicly_visible blog 50 p} \<and>
   sorted_wrt (\<lambda>a b. pub_date (fst b) \<le> pub_date (fst a)) (PostListView_get_queryset blog 50) \<and>
   PostListView_get_queryset blog 50 = [(post5, 1), (post1, 2)] \<and>
   card {c \<in> set (Comment_objects blog). Comment_post blog c = Inr post5} = 1 \<and>
   card {c \<in> set (Comment_objects blog). Comment_post blog c = Inr post1} = 2"
  using PostListView_public_listing [OF unique_keys_blog, of 50] unique_keys_blog
    PostListView_blog by simp

section \<open>The detail page\<close>

lemma PostDetailView_unknown_id:
  assumes "\<forall>p\<in>set (Post_objects db). post_pk p \<noteq> post_id"
  shows "PostDetailView_get_object db user post_id = Inl Http404"
proof -
  from assms have "get_object_or_404 (\<lambda>p. post_pk p = post_id) (Post_objects db) = Inl Http404"
    by (rule get_object_or_404_none)
  then show ?thesis by (simp add: PostDetailView_get_object_def and_then_def)
qed

lemma PostDetailView_hidden_by_flag:
  assumes "get_object_or_404 (\<lambda>p. post_pk p = post_id) (Post_objects db) = Inr post"
    and "Post_author db post = Inr author" and "\<not> same_user user author"
    and "Post_category db post = Inr category" and "Post_location db post = Inr location"
    and "\<not> (is_published post \<and> category_is_published category \<and>
            location_is_published location)"
  shows "PostDetailView_get_object db user post_id = Inl Http404"
  using assms by (simp add: PostDetailView_get_object_def and_then_def)

text \<open>
  C2. The detail view answers not-found for an identifier no post has, and for a post
  hidden by one of the three flags from a viewer who is not its author (the two lemmas
  above). It never looks at the publish time: Bob is shown Alice's post 2, dated 100, at
  time 50, although the post is not publicly visible then.
\<close>

theorem PostDetailView_shows_future_post:
  "PostDetailView_get_object blog (Some bob) 2 = Inr post2 \<and>
   Post_author blog post2 = Inr alice \<and>
   user_pk alice \<noteq> user_pk bob \<and>
   pub_date post2 = 100 \<and>
   \<not> publicly_visible blog 50 post2"
  by (simp add: PostDetailView_get_object_def publicly_visible_def lookup_defs blog_defs)

section \<open>Creating a comment\<close>

lemma CommentCreateView_blog:
  "CommentCreateView_dispatch careless_form blog
     \<lparr>request_user = Some alice, request_method = POST,
      request_POST = [(''author'', ''2''), (''post'', ''5'')]\<rparr> 1 =
   (Inr (redirect (post_detail 1)),
    blog\<lparr>Comment_objects := [comment1, comment2, comment3,
      \<lparr>comment_pk = 4, comment_post_id = 1, comment_author_id = 1,
       comment_text = ''spoofed''\<rparr>]\<rparr>)"
  by (simp add: CommentCreateView_dispatch_def CommentCreateView_form_valid_def
      LoginRequiredMixin_dispatch_def Comment_create_def Comment_blank_def next_pk_def
      careless_form_def lookup_defs blog_defs)

text \<open>
  C3. Whatever the form class does with the submitted body, a request to the
  comment-creation view either leaves the database as it was or appends exactly one
  comment, whose author is the requesting user and whose post is the post the route's
  \<^verbatim>\<open>post_id\<close> resolves to; every other field is the form's.
\<close>

theorem CommentCreateView_binds_author_and_post:
  "snd (CommentCreateView_dispatch form db r post_id) = db \<or>
   (\<exists>user post.
      request_user r = Some user \<and>
      get_object_or_404 (\<lambda>p. post_pk p = post_id) (Post_objects db) = Inr post \<and>
      post_pk post = post_id \<and>
      snd (CommentCreateView_dispatch form db r post_id) =
        db\<lparr>Comment_objects := Comment_objects db @
          [(construct_instance form (request_POST r) Comment_blank)
             \<lparr>comment_pk := next_pk (map comment_pk (Comment_objects db)),
              comment_post_id := post_id,
              comment_author_id := user_pk user\<rparr>]\<rparr>)"
proof (cases "request_user r")
  case None
  then show ?thesis
    by (simp add: CommentCreateView_dispatch_def LoginRequiredMixin_dispatch_def)
next
  case (Some user)
  show ?thesis
  proof (cases "request_method r = POST \<and> is_valid form (request_POST r)")
    case False
    with Some show ?thesis
      by (cases "request_method r")
        (simp_all add: CommentCreateView_dispatch_def LoginRequiredMixin_dispatch_def)
  next
    case True
    show ?thesis
    proof (cases "get_object_or_404 (\<lambda>p. post_pk p = post_id) (Post_objects db)")
      case (Inl e)
      with Some True show ?thesis
        by (simp add: CommentCreateView_dispatch_def LoginRequiredMixin_dispatch_def
            CommentCreateView_form_valid_def)
    next
      case (Inr post)
      then have "objects_get (\<lambda>p. post_pk p = post_id) (Post_objects db) = Inr post"
        by (simp add: get_object_or_404_Inr)
      then have pk: "post_pk post = post_id" by (rule objects_get_Inr [THEN conjunct2])
      from Some True Inr pk have
        "snd (CommentCreateView_dispatch form db r post_id) =
           db\<lparr>Comment_objects := Comment_objects db @
             [(construct_instance form (request_POST r) Comment_blank)
                \<lparr>comment_pk := next_pk (map comment_pk (Comment_objects db)),
                 comment_post_id := post_id,
                 comment_author_id := user_pk user\<rparr>]\<rparr>"
        by (simp add: CommentCreateView_dispatch_def LoginRequiredMixin_dispatch_def
            CommentCreateView_form_valid_def Comment_create_def)
      with Some Inr pk show ?thesis by blast
    qed
  qed
qed

text \<open>
  Alice comments on post 1 through a form that writes author 2 and post 5 from the body:
  the stored comment is Alice's and belongs to post 1.
\<close>

theorem CommentCreateView_binds_author_and_post_witness:
  "snd (CommentCreateView_dispatch careless_form blog
     \<lparr>request_user = Some alice, request_method = POST,
      request_POST = [(''author'', ''2''), (''post'', ''5'')]\<rparr> 1) \<noteq> blog \<and>
   snd (CommentCreateView_dispatch careless_form blog
     \<lparr>request_user = Some alice, request_method = POST,
      request_POST = [(''author'', ''2''), (''post'', ''5'')]\<rparr> 1) =
     blog\<lparr>Comment_objects := Comment_objects blog @
       [(construct_instance careless_form [(''author'', ''2''), (''post'', ''5'')] Comment_blank)
          \<lparr>comment_pk := next_pk (map comment_pk (Comment_objects blog)),
           comment_post_id := 1,
           comment_author_id := user_pk alice\<rparr>]\<rparr>"
proof -
  let ?r = "\<lparr>request_user = Some alice, request_method = POST,
             request_POST = [(''author'', ''2''), (''post'', ''5'')]\<rparr>"
  have changed: "snd (CommentCreateView_dispatch careless_form blog ?r 1) \<noteq> blog"
    unfolding CommentCreateView_blog by (simp add: blog_def)
  from CommentCreateView_binds_author_and_post [of careless_form blog ?r 1] changed
  show ?thesis by auto
qed

section \<open>The ownership guard\<close>

lemmas view_defs = PostEditView_dispatch_def PostEditView_handler_def
  PostEditView_get_object_def PostDeleteView_dispatch_def PostDeleteView_handler_def
  PostDeleteView_get_object_def CommentEditView_dispatch_def CommentEditView_handler_def
  CommentEditView_get_object_def CommentDeleteView_dispatch_def
  CommentDeleteView_handler_def CommentDeleteView_get_object_def
  AuthorPostMixin_dispatch_def AuthorCommentMixin_dispatch_def
  LoginRequiredMixin_dispatch_def

lemma same_user_Some: "same_user (Some u) author \<longleftrightarrow> user_pk u = user_pk author"
  by (simp add: same_user_def)

lemma same_user_None: "\<not> same_user None author"
  by (simp add: same_user_def)

lemma AuthorPostMixin_non_owner:
  assumes "get_object = Inr post" and "Post_author db post = Inr author"
    and "\<not> same_user (request_user r) author"
  shows "AuthorPostMixin_dispatch db r get_object super_dispatch =
         (Inr (redirect (post_detail (post_pk post))), db)"
  using assms by (simp add: AuthorPostMixin_dispatch_def)

lemma AuthorCommentMixin_non_owner:
  assumes "get_object = Inr comment" and "Comment_author db comment = Inr author"
    and "\<not> same_user (request_user r) author" and "Comment_post db comment = Inr post"
  shows "AuthorCommentMixin_dispatch db r get_object super_dispatch =
         (Inr (redirect (post_detail (post_pk post))), db)"
  using assms by (simp add: AuthorCommentMixin_dispatch_def)

text \<open>
  C4. An authenticated user asks to edit or delete a post or a comment that the view's
  \<^verbatim>\<open>get_object\<close> finds and whose author is somebody else: the answer is a redirect
  to the detail page of the post (for a comment, of the comment's post), and the database
  is left as it was. This holds for GET and POST alike and for every form class.
\<close>

theorem non_owner_is_redirected:
  assumes "request_user r = Some u"
  shows
    "(\<forall>post author.
        PostEditView_get_object db post_id = Inr post \<and>
        Post_author db post = Inr author \<and> user_pk author \<noteq> user_pk u \<longrightarrow>
        PostEditView_dispatch post_form_class db r post_id =
          (Inr (redirect (post_detail (post_pk post))), db)) \<and>
     (\<forall>post author.
        PostDeleteView_get_object db post_id = Inr post \<and>
        Post_author db post = Inr author \<and> user_pk author \<noteq> user_pk u \<longrightarrow>
        PostDeleteView_dispatch on_delete db r post_id =
          (Inr (redirect (post_detail (post_pk post))), db)) \<and>
     (\<forall>comment author post.
        CommentEditView_get_object db post_id comment_id = Inr comment \<and>
        Comment_author db comment = Inr author \<and> user_pk author \<noteq> user_pk u \<and>
        Comment_post db comment = Inr post \<longrightarrow>
        CommentEditView_dispatch comment_form_class db r post_id comment_id =
          (Inr (redirect (post_detail (post_pk post))), db)) \<and>
     (\<forall>comment author post.
        CommentDeleteView_get_object db post_id comment_id = Inr comment \<and>
        Comment_author db comment = Inr author \<and> user_pk author \<noteq> user_pk u \<and>
        Comment_post db comment = Inr post \<longrightarrow>
        CommentDeleteView_dispatch db r post_id comment_id =
          (Inr (redirect (post_detail (post_pk post))), db))"
proof (intro conjI allI impI)
  fix post author
  assume "PostEditView_get_object db post_id = Inr post \<and>
          Post_author db post = Inr author \<and> user_pk author \<noteq> user_pk u"
  with assms show "PostEditView_dispatch post_form_class db r post_id =
                   (Inr (redirect (post_detail (post_pk post))), db)"
    unfolding PostEditView_dispatch_def
    by (intro AuthorPostMixin_non_owner [where author = author]) (auto simp: same_user_Some)
next
  fix post author
  assume "PostDeleteView_get_object db post_id = Inr post \<and>
          Post_author db post = Inr author \<and> user_pk author \<noteq> user_pk u"
  with assms show "PostDeleteView_dispatch on_delete db r post_id =
                   (Inr (redirect (post_detail (post_pk post))), db)"
    unfolding PostDeleteView_dispatch_def
    by (intro AuthorPostMixin_non_owner [where author = author]) (auto simp: same_user_Some)
next
  fix comment author post
  assume "CommentEditView_get_object db post_id comment_id = Inr comment \<and>
          Comment_author db comment = Inr author \<and> user_pk author \<noteq> user_pk u \<and>
          Comment_post db comment = Inr post"
  with assms show "CommentEditView_dispatch comment_form_class db r post_id comment_id =
                   (Inr (redirect (post_detail (post_pk post))), db)"
    unfolding CommentEditView_dispatch_def
    by (intro AuthorCommentMixin_non_owner [where author = author and comment = comment])
      (auto simp: same_user_Some)
next
  fix comment author post
  assume "CommentDeleteView_get_object db post_id comment_id = Inr comment \<and>
          Comment_author db comment = Inr author \<and> user_pk author \<noteq> user_pk u \<and>
          Comment_post db comment = Inr post"
  with assms show "CommentDeleteView_dispatch db r post_id comment_id =
                   (Inr (redirect (post_detail (post_pk post))), db)"
    unfolding CommentDeleteView_dispatch_def
    by (intro AuthorCommentMixin_non_owner [where author = author and comment = comment])
      (auto simp: same_user_Some)
qed

text \<open>Bob asks to edit and to delete Alice's first post and her comment on it.\<close>

lemma blog_lookups:
  "PostEditView_get_object blog 1 = Inr post1"
  "PostDeleteView_get_object blog 1 = Inr post1"
  "CommentEditView_get_object blog 1 1 = Inr comment1"
  "CommentEditView_get_object blog 5 1 = Inr comment1"
  "CommentDeleteView_get_object blog 1 1 = Inr comment1"
  "CommentDeleteView_get_object blog 5 1 = Inl Http404"
  "Post_author blog post1 = Inr alice"
  "Comment_author blog comment1 = Inr alice"
  "Comment_post blog comment1 = Inr post1"
  by (simp_all add: view_defs lookup_defs blog_defs)

theorem non_owner_is_redirected_witness:
  "PostEditView_dispatch post_form blog
     \<lparr>request_user = Some bob, request_method = POST,
      request_POST = [(''title'', ''mine'')]\<rparr> 1 =
     (Inr (redirect (post_detail 1)), blog) \<and>
   PostDeleteView_dispatch cascade blog
     \<lparr>request_user = Some bob, request_method = POST,
      request_POST = [(''title'', ''mine'')]\<rparr> 1 =
     (Inr (redirect (post_detail 1)), blog) \<and>
   CommentEditView_dispatch text_form blog
     \<lparr>request_user = Some bob, request_method = POST,
      request_POST = [(''title'', ''mine'')]\<rparr> 1 1 =
     (Inr (redirect (post_detail 1)), blog) \<and>
   CommentDeleteView_dispatch blog
     \<lparr>request_user = Some bob, request_method = POST,
      request_POST = [(''title'', ''mine'')]\<rparr> 1 1 =
     (Inr (redirect (post_detail 1)), blog)"
proof -
  let ?r = "\<lparr>request_user = Some bob, request_method = POST,
             request_POST = [(''title'', ''mine'')]\<rparr>"
  have u: "request_user ?r = Some bob" by simp
  have ne: "user_pk alice \<noteq> user_pk bob" by (simp add: alice_def bob_def)
  have pk: "post_pk post1 = 1" by (simp add: post1_def)
  note inst = non_owner_is_redirected [OF u, of blog 1 post_form cascade 1 text_form]
  from inst blog_lookups ne have
    "PostEditView_dispatch post_form blog ?r 1 =
       (Inr (redirect (post_detail (post_pk post1))), blog)"
    "PostDeleteView_dispatch cascade blog ?r 1 =
       (Inr (redirect (post_detail (post_pk post1))), blog)"
    "CommentEditView_dispatch text_form blog ?r 1 1 =
       (Inr (redirect (post_detail (post_pk post1))), blog)"
    "CommentDeleteView_dispatch blog ?r 1 1 =
       (Inr (redirect (post_detail (post_pk post1))), blog)"
    by blast+
  then show ?thesis unfolding pk by blast
qed

section \<open>The route of a comment\<close>

lemma CommentDeleteView_route_mismatch:
  assumes "\<forall>c\<in>set (Comment_objects db). \<not> (comment_pk c = comment_id \<and> comment_post_id c = post_id)"
  shows "CommentDeleteView_dispatch db r post_id comment_id = (Inl Http404, db)"
proof -
  from assms have "CommentDeleteView_get_object db post_id comment_id = Inl Http404"
    unfolding CommentDeleteView_get_object_def by (rule get_object_or_404_none)
  then show ?thesis
    by (simp add: CommentDeleteView_dispatch_def AuthorCommentMixin_dispatch_def)
qed

lemma CommentEditView_get_object_any_route:
  "CommentEditView_get_object db post_id comment_id =
   CommentEditView_get_object db post_id' comment_id"
  by (simp add: CommentEditView_get_object_def)

text \<open>
  C5. Comment 1 belongs to post 1. Through the route of post 5, the delete view answers
  not-found and changes nothing, but the edit view lets Alice, its author, rewrite the
  comment: its \<^verbatim>\<open>get_object\<close> looks the comment up by \<^verbatim>\<open>comment_id\<close> alone.
\<close>

theorem CommentEditView_mismatched_route_edits:
  "comment_post_id comment1 = 1 \<and>
   CommentEditView_dispatch text_form blog
     \<lparr>request_user = Some alice, request_method = POST,
      request_POST = [(''text'', ''edited'')]\<rparr> 5 1 =
   (Inr (redirect (post_detail 5)),
    blog\<lparr>Comment_objects := [comment1\<lparr>comment_text := ''edited''\<rparr>, comment2, comment3]\<rparr>) \<and>
   CommentDeleteView_dispatch blog
     \<lparr>request_user = Some alice, request_method = POST,
      request_POST = [(''text'', ''edited'')]\<rparr> 5 1 = (Inl Http404, blog)"
  by (simp add: view_defs lookup_defs Comment_save_def text_form_def blog_defs)

section \<open>Anonymous requests\<close>

lemma AuthorPostMixin_anonymous:
  assumes "request_user r = None"
  shows "snd (AuthorPostMixin_dispatch db r get_object super_dispatch) = db \<and>
         fst (AuthorPostMixin_dispatch db r get_object super_dispatch) \<noteq> Inr (redirect login)"
proof (cases get_object)
  case (Inl e)
  then show ?thesis by (simp add: AuthorPostMixin_dispatch_def)
next
  case (Inr post)
  with assms show ?thesis
    by (cases "Post_author db post") (simp_all add: AuthorPostMixin_dispatch_def same_user_None)
qed

lemma AuthorCommentMixin_anonymous:
  assumes "request_user r = None"
  shows "snd (AuthorCommentMixin_dispatch db r get_object super_dispatch) = db \<and>
         fst (AuthorCommentMixin_dispatch db r get_object super_dispatch) \<noteq> Inr (redirect login)"
proof (cases get_object)
  case (Inl e)
  then show ?thesis by (simp add: AuthorCommentMixin_dispatch_def)
next
  case (Inr comment)
  show ?thesis
  proof (cases "Comment_author db comment")
    case (Inl e)
    with Inr show ?thesis by (simp add: AuthorCommentMixin_dispatch_def)
  next
    case author: (Inr author)
    with Inr assms show ?thesis
      by (cases "Comment_post db comment")
        (simp_all add: AuthorCommentMixin_dispatch_def same_user_None)
  qed
qed

text \<open>
  C9. An anonymous request to edit or delete post 1 or comment 1 is answered with a
  redirect to the detail page of post 1, not to the login page: the author comparison of
  the mixin comes before the login check and fails for the anonymous user. Nothing is
  written. The comment-creation view, which has the login mixin alone, does redirect to
  the login page.
\<close>

theorem anonymous_is_sent_to_the_detail_page:
  "PostEditView_dispatch post_form blog
     \<lparr>request_user = None, request_method = POST, request_POST = []\<rparr> 1 =
     (Inr (redirect (post_detail 1)), blog) \<and>
   PostDeleteView_dispatch cascade blog
     \<lparr>request_user = None, request_method = POST, request_POST = []\<rparr> 1 =
     (Inr (redirect (post_detail 1)), blog) \<and>
   CommentEditView_dispatch text_form blog
     \<lparr>request_user = None, request_method = POST, request_POST = []\<rparr> 1 1 =
     (Inr (redirect (post_detail 1)), blog) \<and>
   CommentDeleteView_dispatch blog
     \<lparr>request_user = None, request_method = POST, request_POST = []\<rparr> 1 1 =
     (Inr (redirect (post_detail 1)), blog) \<and>
   CommentCreateView_dispatch text_form blog
     \<lparr>request_user = None, request_method = POST, request_POST = []\<rparr> 1 =
     (Inr (redirect login), blog)"
  by (simp add: view_defs lookup_defs CommentCreateView_dispatch_def blog_defs)

section \<open>Editing a comment through another post's route\<close>

text \<open>
  C10. An authenticated user who is not the author asks to edit a comment through the
  route \<^verbatim>\<open>post_id\<close>/comment/\<^verbatim>\<open>comment_id\<close>. The comment is the one found by
  \<^verbatim>\<open>comment_id\<close> alone, whatever \<^verbatim>\<open>post_id\<close> is, and the redirect goes to the
  detail page of the comment's stored post.
\<close>

theorem CommentEditView_non_owner_redirect:
  assumes "request_user r = Some u"
    and "get_object_or_404 (\<lambda>c. comment_pk c = comment_id) (Comment_objects db) = Inr comment"
    and "Comment_author db comment = Inr author" and "user_pk author \<noteq> user_pk u"
    and "Comment_post db comment = Inr post"
  shows "CommentEditView_get_object db post_id comment_id = Inr comment \<and>
         CommentEditView_dispatch form db r post_id comment_id =
           (Inr (redirect (post_detail (comment_post_id comment))), db) \<and>
         post_pk post = comment_post_id comment"
proof -
  have obj: "CommentEditView_get_object db post_id comment_id = Inr comment"
    using assms(2) by (simp add: CommentEditView_get_object_def)
  from assms(1,4) have other: "\<not> same_user (request_user r) author"
    by (auto simp: same_user_Some)
  have pk: "post_pk post = comment_post_id comment"
    using assms(5) unfolding Comment_post_def by (rule objects_get_Inr [THEN conjunct2])
  have "CommentEditView_dispatch form db r post_id comment_id =
        (Inr (redirect (post_detail (post_pk post))), db)"
    unfolding CommentEditView_dispatch_def
    by (rule AuthorCommentMixin_non_owner [OF obj assms(3) other assms(5)])
  with obj pk show ?thesis by simp
qed

text \<open>
  Bob asks for comment 1 of post 1 through the route of post 5 and is sent to post 1.
\<close>

theorem CommentEditView_non_owner_redirect_witness:
  "CommentEditView_get_object blog 5 1 = Inr comment1 \<and>
   CommentEditView_dispatch text_form blog
     \<lparr>request_user = Some bob, request_method = GET, request_POST = []\<rparr> 5 1 =
     (Inr (redirect (post_detail 1)), blog) \<and>
   post_pk post1 = comment_post_id comment1 \<and>
   comment_post_id comment1 \<noteq> 5"
proof -
  let ?r = "\<lparr>request_user = Some bob, request_method = GET, request_POST = []\<rparr>"
  have u: "request_user ?r = Some bob" by simp
  have c: "get_object_or_404 (\<lambda>c. comment_pk c = 1) (Comment_objects blog) = Inr comment1"
    by (simp add: lookup_defs blog_defs)
  have ne: "user_pk alice \<noteq> user_pk bob" by (simp add: alice_def bob_def)
  have a: "Comment_author blog comment1 = Inr alice" and p: "Comment_post blog comment1 = Inr post1"
    by (simp_all add: blog_lookups)
  have pid: "comment_post_id comment1 = 1" by (simp add: comment1_def)
  from CommentEditView_non_owner_redirect [OF u c a ne p, of 5 text_form]
  show ?thesis unfolding pid by simp
qed

section \<open>The profile listing\<close>

lemma Post_author_iff:
  assumes "unique_keys db" and "w \<in> set (User_objects db)"
  shows "Post_author db p = Inr w \<longleftrightarrow> author_id p = user_pk w"
proof
  assume "Post_author db p = Inr w"
  then have "user_pk w = author_id p"
    unfolding Post_author_def by (rule objects_get_Inr [THEN conjunct2])
  then show "author_id p = user_pk w" by simp
next
  assume eq: "author_id p = user_pk w"
  from assms(1) have d: "distinct (map user_pk (User_objects db))"
    by (simp add: unique_keys_def)
  from objects_get_key [OF d assms(2), of "author_id p"] eq
  show "Post_author db p = Inr w" by (simp add: Post_author_def)
qed

lemma get_user_by_username:
  assumes "unique_keys db" and "w \<in> set (User_objects db)"
  shows "get_object_or_404 (\<lambda>u. username u = username w) (User_objects db) = Inr w"
proof -
  from assms(1) have d: "distinct (map username (User_objects db))"
    by (simp add: unique_keys_def)
  from objects_get_key [OF d assms(2) refl] show ?thesis
    by (simp add: get_object_or_404_Inr)
qed

lemma get_post_by_pk:
  assumes "unique_keys db" and "post \<in> set (Post_objects db)"
  shows "get_object_or_404 (\<lambda>p. post_pk p = post_pk post) (Post_objects db) = Inr post"
proof -
  from assms(1) have d: "distinct (map post_pk (Post_objects db))"
    by (simp add: unique_keys_def)
  from objects_get_key [OF d assms(2) refl] show ?thesis
    by (simp add: get_object_or_404_Inr)
qed

lemma UserDetailView_rows:
  assumes "unique_keys db" and "w \<in> set (User_objects db)"
  shows "UserDetailView_get_queryset db user now (username w) =
         Inr (filter (\<lambda>row. same_user user w \<or> pub_date (fst row) \<le> now)
                (order_by_desc (\<lambda>row. pub_date (fst row))
                   (annotate_comment_count db (User_posts db w))))"
  by (simp add: UserDetailView_get_queryset_def get_user_by_username [OF assms] and_then_def
      Let_def)

text \<open>
  C8. The profile listing of a user W holds exactly W's posts when the viewer is W, and
  exactly W's posts whose publish time is not after now for every other viewer (the
  anonymous one included); no published flag is consulted. The rows are in descending
  order of publish time and carry the number of comments of their post.
\<close>

theorem UserDetailView_profile_listing:
  assumes "unique_keys db" and "w \<in> set (User_objects db)"
  shows "\<exists>rows. UserDetailView_get_queryset db user now (username w) = Inr rows \<and>
           fst ` set rows =
             (if same_user user w
              then {p \<in> set (Post_objects db). Post_author db p = Inr w}
              else {p \<in> set (Post_objects db). Post_author db p = Inr w \<and> pub_date p \<le> now}) \<and>
           sorted_wrt (\<lambda>a b. pub_date (fst b) \<le> pub_date (fst a)) rows \<and>
           (\<forall>row \<in> set rows.
              snd row = card {c \<in> set (Comment_objects db). Comment_post db c = Inr (fst row)})"
proof -
  let ?all = "order_by_desc (\<lambda>row. pub_date (fst row))
                (annotate_comment_count db (User_posts db w))"
  let ?rows = "filter (\<lambda>row. same_user user w \<or> pub_date (fst row) \<le> now) ?all"
  have mem: "row \<in> set ?all \<longleftrightarrow>
             fst row \<in> set (Post_objects db) \<and> Post_author db (fst row) = Inr w \<and>
             snd row = length (Post_comments db (fst row))" for row
    by (cases row)
      (auto simp: set_order_by_desc annotate_comment_count_def User_posts_def
        Post_author_iff [OF assms])
  have posts: "fst ` set ?rows =
        (if same_user user w
         then {p \<in> set (Post_objects db). Post_author db p = Inr w}
         else {p \<in> set (Post_objects db). Post_author db p = Inr w \<and> pub_date p \<le> now})"
  proof (cases "same_user user w")
    case True
    have "fst ` set ?all = {p \<in> set (Post_objects db). Post_author db p = Inr w}"
    proof (intro set_eqI iffI)
      fix p assume "p \<in> fst ` set ?all"
      then obtain row where "row \<in> set ?all" "p = fst row" by blast
      with mem [of row] show "p \<in> {p \<in> set (Post_objects db). Post_author db p = Inr w}"
        by simp
    next
      fix p assume "p \<in> {p \<in> set (Post_objects db). Post_author db p = Inr w}"
      then have "(p, length (Post_comments db p)) \<in> set ?all" by (simp add: mem)
      then show "p \<in> fst ` set ?all" by force
    qed
    with True show ?thesis by simp
  next
    case False
    have "fst ` set ?rows =
          {p \<in> set (Post_objects db). Post_author db p = Inr w \<and> pub_date p \<le> now}"
    proof (intro set_eqI iffI)
      fix p assume "p \<in> fst ` set ?rows"
      then obtain row where "row \<in> set ?rows" "p = fst row" by blast
      with False mem [of row]
      show "p \<in> {p \<in> set (Post_objects db). Post_author db p = Inr w \<and> pub_date p \<le> now}"
        by simp
    next
      fix p
      assume "p \<in> {p \<in> set (Post_objects db). Post_author db p = Inr w \<and> pub_date p \<le> now}"
      then have "(p, length (Post_comments db p)) \<in> set ?rows" by (simp add: mem)
      then show "p \<in> fst ` set ?rows" by force
    qed
    with False show ?thesis by simp
  qed
  have sorted: "sorted_wrt (\<lambda>a b. pub_date (fst b) \<le> pub_date (fst a)) ?rows"
    by (rule sorted_wrt_filter [OF sorted_order_by_desc])
  have counts: "\<forall>row \<in> set ?rows.
      snd row = card {c \<in> set (Comment_objects db). Comment_post db c = Inr (fst row)}"
  proof
    fix row assume "row \<in> set ?rows"
    then have "row \<in> set ?all" by simp
    with mem [of row] have "fst row \<in> set (Post_objects db)"
      "snd row = length (Post_comments db (fst row))" by simp_all
    with Post_comments_count [OF assms(1), of "fst row"]
    show "snd row = card {c \<in> set (Comment_objects db). Comment_post db c = Inr (fst row)}"
      by simp
  qed
  from UserDetailView_rows [OF assms] posts sorted counts show ?thesis by blast
qed

lemma UserDetailView_blog:
  "UserDetailView_get_queryset blog (Some bob) 50 ''alice'' = Inr [(post3, 0), (post1, 2)]"
  "UserDetailView_get_queryset blog (Some alice) 50 ''alice'' =
     Inr [(post2, 0), (post3, 0), (post1, 2)]"
  by (simp_all add: UserDetailView_get_queryset_def annotate_comment_count_def
      order_by_desc_def User_posts_def Post_comments_def lookup_defs blog_defs)

theorem UserDetailView_profile_listing_witness:
  "unique_keys blog \<and> alice \<in> set (User_objects blog) \<and> \<not> same_user (Some bob) alice \<and>
   UserDetailView_get_queryset blog (Some bob) 50 (username alice) =
     Inr [(post3, 0), (post1, 2)] \<and>
   {p \<in> set (Post_objects blog). Post_author blog p = Inr alice \<and> pub_date p \<le> 50} =
     {post3, post1} \<and>
   \<not> publicly_visible blog 50 post3"
proof -
  have w: "alice \<in> set (User_objects blog)" by (simp add: blog_def)
  have other: "\<not> same_user (Some bob) alice" by (simp add: same_user_def alice_def bob_def)
  have name: "username alice = ''alice''" by (simp add: alice_def)
  have hidden: "\<not> publicly_visible blog 50 post3"
    by (simp add: publicly_visible_def lookup_defs blog_defs)
  from UserDetailView_profile_listing [OF unique_keys_blog w, of "Some bob" 50]
  obtain rows where rows:
    "UserDetailView_get_queryset blog (Some bob) 50 (username alice) = Inr rows"
    "fst ` set rows =
       (if same_user (Some bob) alice
        then {p \<in> set (Post_objects blog). Post_author blog p = Inr alice}
        else {p \<in> set (Post_objects blog). Post_author blog p = Inr alice \<and> pub_date p \<le> 50})"
    by blast
  from rows(1) have eq: "rows = [(post3, 0), (post1, 2)]"
    unfolding name UserDetailView_blog(1) by simp
  from rows(2) other have
    "{p \<in> set (Post_objects blog). Post_author blog p = Inr alice \<and> pub_date p \<le> 50} =
     {post3, post1}"
    unfolding eq by simp
  with unique_keys_blog w other rows(1) hidden show ?thesis unfolding eq by simp
qed

section \<open>What the author sees\<close>

text \<open>
  C6, as stated, fails for the public listing: it takes no viewer, so Bob's unpublished
  post 4 is missing from it for Bob as for everyone else.
\<close>

theorem author_post_missing_from_public_listing:
  "post4 \<in> set (Post_objects blog) \<and> Post_author blog post4 = Inr bob \<and>
   post4 \<notin> fst ` set (PostListView_get_queryset blog 50)"
  unfolding PostListView_blog by (simp add: lookup_defs blog_defs)

text \<open>
  C6, amended. The author of a post reaches its detail page and finds it in the listing
  of the own profile, whatever the flags of the post, its category and its location and
  whatever its publish time are.
\<close>

theorem author_reaches_own_post:
  assumes "unique_keys db" and "post \<in> set (Post_objects db)"
    and "Post_author db post = Inr u"
  shows "PostDetailView_get_object db (Some u) (post_pk post) = Inr post \<and>
         (\<exists>rows. UserDetailView_get_queryset db (Some u) now (username u) = Inr rows \<and>
                  post \<in> fst ` set rows)"
proof
  have "same_user (Some u) u" by (simp add: same_user_def)
  with get_post_by_pk [OF assms(1,2)] assms(3)
  show "PostDetailView_get_object db (Some u) (post_pk post) = Inr post"
    by (simp add: PostDetailView_get_object_def and_then_def)
next
  from assms(3) have "u \<in> set (User_objects db) \<and> user_pk u = author_id post"
    unfolding Post_author_def by (rule objects_get_Inr)
  then have u: "u \<in> set (User_objects db)" "user_pk u = author_id post" by simp_all
  let ?rows = "filter (\<lambda>row. same_user (Some u) u \<or> pub_date (fst row) \<le> now)
                 (order_by_desc (\<lambda>row. pub_date (fst row))
                    (annotate_comment_count db (User_posts db u)))"
  from assms(2) u(2) have "post \<in> set (User_posts db u)" by (simp add: User_posts_def)
  then have "(post, length (Post_comments db post)) \<in> set ?rows"
    by (simp add: same_user_def set_order_by_desc annotate_comment_count_def)
  then have "post \<in> fst ` set ?rows" by force
  with UserDetailView_rows [OF assms(1) u(1), of "Some u" now]
  show "\<exists>rows. UserDetailView_get_queryset db (Some u) now (username u) = Inr rows \<and>
               post \<in> fst ` set rows" by blast
qed

theorem author_reaches_own_post_witness:
  "unique_keys blog \<and> post4 \<in> set (Post_objects blog) \<and> Post_author blog post4 = Inr bob \<and>
   \<not> is_published post4 \<and>
   PostDetailView_get_object blog (Some bob) (post_pk post4) = Inr post4 \<and>
   (\<exists>rows. UserDetailView_get_queryset blog (Some bob) 20 (username bob) = Inr rows \<and>
            post4 \<in> fst ` set rows)"
proof -
  have p: "post4 \<in> set (Post_objects blog)" by (simp add: blog_def)
  have a: "Post_author blog post4 = Inr bob" by (simp add: lookup_defs blog_defs)
  have d: "\<not> is_published post4" by (simp add: post4_def)
  from author_reaches_own_post [OF unique_keys_blog p a, of 20] unique_keys_blog p a d
  show ?thesis by simp
qed

section \<open>The category listing\<close>

lemma CategoryPostsListView_not_found:
  assumes "\<forall>c\<in>set (Category_objects db). \<not> (slug c = category_slug \<and> category_is_published c)"
  shows "CategoryPostsListView_get_queryset db now category_slug = Inl Http404"
proof -
  from assms have "get_category db category_slug = Inl Http404"
    unfolding get_category_def by (rule get_object_or_404_none)
  then show ?thesis by (simp add: CategoryPostsListView_get_queryset_def and_then_def)
qed

text \<open>
  C7. An unknown slug and an unpublished category give not-found (the lemma above). The
  listing of a published category filters on the post's flag, the category's flag and
  the publish time, but not on the location's flag: post 3, at the unpublished location,
  is listed under its category while the public listing leaves it out.
\<close>

theorem CategoryPostsListView_lists_unpublished_location:
  "CategoryPostsListView_get_queryset blog 50 ''travel'' =
     Inr [(post5, 1), (post3, 0), (post1, 2)] \<and>
   Post_location blog post3 = Inr atlantis \<and> \<not> location_is_published atlantis \<and>
   \<not> publicly_visible blog 50 post3 \<and>
   post3 \<notin> fst ` set (PostListView_get_queryset blog 50)"
  unfolding PostListView_blog
  by (simp add: CategoryPostsListView_get_queryset_def get_category_def Category_posts_def
      annotate_comment_count_def order_by_desc_def Post_comments_def
      category__is_published_def publicly_visible_def lookup_defs blog_defs)

end
